theory Spec2Isabelle
  imports Main "HOL-Library.Word"
begin

section \<open>Exceptions\<close>

text \<open>
  The exceptions the two modules raise, as values. \<open>IndexError\<close>, \<open>ValueError\<close> and
  \<open>TimeoutError\<close> are Python's built-in classes. The text of a message is left out;
  the value it is formatted from is kept: the response code for
  \<open>ScreenshotResponseError\<close>, the number of seconds for \<open>TimeoutError\<close>.

  Modelled from the spec: the classes \<open>ScreenshotRequestError\<close> and
  \<open>ScreenshotResponseError\<close> are imported from \<^verbatim>\<open>normcap.screengrab\<close>, whose
  declarations are not among the source files. The spec's error taxonomy lists
  request-rejected, response-error and timed-out as three separate kinds of failure, so
  the two classes are constructors of their own and not subclasses of \<open>TimeoutError\<close>:
  an \<^verbatim>\<open>except TimeoutError\<close> clause does not catch them.
\<close>

datatype error =
    IndexError
  | ValueError
  | ScreenshotRequestError
  | ScreenshotResponseError "32 word"
  | TimeoutError nat

fun is_TimeoutError :: "error \<Rightarrow> bool" where
  "is_TimeoutError (TimeoutError s) = True"
| "is_TimeoutError e = False"


section \<open>update\_check.py: the version comparator\<close>

text \<open>
  Strings are lists of characters, compared by their codes. \<^verbatim>\<open>re.split(r"\.|\-", s)\<close>:
  the string is cut at every full stop and every hyphen; the pieces between them are
  kept, the empty ones too.
\<close>

fun re_split :: "string \<Rightarrow> string list" where
  "re_split [] = [[]]"
| "re_split (c # cs) =
     (if c = CHR ''.'' \<or> c = CHR ''-'' then [] # re_split cs
      else (case re_split cs of
              [] \<Rightarrow> [[c]]
            | p # ps \<Rightarrow> (c # p) # ps))"

text \<open>
  \<^verbatim>\<open>str.zfill(width)\<close>: a string shorter than \<open>width\<close> is padded with zeros on the
  left, after a leading sign if it has one; a longer one is returned as it is.
\<close>

definition zfill :: "nat \<Rightarrow> string \<Rightarrow> string" where
  "zfill width s =
     (if width \<le> length s then s
      else (case s of
              [] \<Rightarrow> replicate width (CHR ''0'')
            | c # cs \<Rightarrow>
                if c = CHR ''+'' \<or> c = CHR ''-''
                then c # replicate (width - length s) (CHR ''0'') @ cs
                else replicate (width - length s) (CHR ''0'') @ s))"

text \<open>
  Python orders strings by the code points of their characters and tuples by their
  components, both lexicographically, a proper prefix being smaller.
\<close>

fun str_less :: "string \<Rightarrow> string \<Rightarrow> bool" where
  "str_less [] [] = False"
| "str_less [] (y # ys) = True"
| "str_less (x # xs) [] = False"
| "str_less (x # xs) (y # ys) =
     (if x = y then str_less xs ys else (of_char x :: nat) < of_char y)"

fun tuple_less :: "string list \<Rightarrow> string list \<Rightarrow> bool" where
  "tuple_less [] [] = False"
| "tuple_less [] (y # ys) = True"
| "tuple_less (x # xs) [] = False"
| "tuple_less (x # xs) (y # ys) =
     (if x = y then tuple_less xs ys else str_less x y)"

text \<open>
  \<^verbatim>\<open>re.sub(r"[^0-9]", "", s)\<close> keeps the characters \<open>0\<close> to \<open>9\<close>, and \<^verbatim>\<open>int\<close>
  reads the digits that are left; on the empty string it raises \<open>ValueError\<close>. (The
  bound that recent interpreters put on the number of digits \<^verbatim>\<open>int\<close> accepts, some
  thousands, is left out.)
\<close>

definition is_digit :: "char \<Rightarrow> bool" where
  "is_digit c = (c \<in> set ''0123456789'')"

definition digit_val :: "char \<Rightarrow> nat" where
  "digit_val c = of_char c - 48"

definition py_int :: "string \<Rightarrow> error + nat" where
  "py_int s =
     (if s = [] then Inl ValueError
      else Inr (foldl (\<lambda>n c. 10 * n + digit_val c) 0 s))"

text \<open>
  \<^verbatim>\<open>UpdateChecker._is_new_version(current, other)\<close>. The tests are in the order of the
  source. Reading component 3 of a tuple that has fewer than four components raises
  \<open>IndexError\<close>, as does reading the first character of an empty component.
\<close>

definition is_new_version :: "string \<Rightarrow> string \<Rightarrow> error + bool" where
  "is_new_version current other =
     (let current_tuple = map (zfill 8) (re_split current);
          other_tuple = map (zfill 8) (re_split other)
      in if tuple_less (take 3 current_tuple) (take 3 other_tuple) then Inr True
         else if tuple_less (take 3 other_tuple) (take 3 current_tuple) then Inr False
         else if length other_tuple = 3 \<and> length current_tuple = 3 then Inr False
         else if length other_tuple \<noteq> length current_tuple
           then Inr (length other_tuple < length current_tuple)
         else if length current_tuple \<le> 3 \<or> length other_tuple \<le> 3 then Inl IndexError
         else (case (current_tuple ! 3, other_tuple ! 3) of
                 (c0 # _, o0 # _) \<Rightarrow>
                   if c0 \<noteq> o0 then Inr ((of_char c0 :: nat) < of_char o0)
                   else (case py_int (filter is_digit (other_tuple ! 3)) of
                           Inl e \<Rightarrow> Inl e
                         | Inr other_n \<Rightarrow>
                             (case py_int (filter is_digit (current_tuple ! 3)) of
                                Inl e \<Rightarrow> Inl e
                              | Inr current_n \<Rightarrow> Inr (current_n < other_n)))
               | _ \<Rightarrow> Inl IndexError))"


section \<open>dbus\_portal.py: the portal client\<close>

definition TIMEOUT_SECONDS :: nat where
  "TIMEOUT_SECONDS = 10"

text \<open>
  The object of class \<open>OrgFreedesktopPortalScreenshot\<close>: the flag and the timeout it was
  created with, and whether its single-shot \<open>timeout_timer\<close> is running. Its three
  signals carry a message, a URI or an exception; \<open>on_response\<close> is connected to
  \<open>got_signal\<close> by the constructor, the other two are emitted to whoever listens.
\<close>

record OrgFreedesktopPortalScreenshot =
  interactive :: bool
  timeout_sec :: nat
  timer_active :: bool

datatype signal = on_result string | on_exception error

text \<open>
  The bus call \<^verbatim>\<open>interface.call("Screenshot", "", {...})\<close>: the interface it is made
  on, the method, the parent window and the options dictionary, whose values are a
  boolean and a string.
\<close>

datatype variant = Bool bool | Str string

record dbus_call =
  call_service :: string
  call_path :: string
  call_interface :: string
  call_method :: string
  parent_window :: string
  options :: "(string \<times> variant) list"

text \<open>
  What the call returns. The source accepts it when it is a \<open>QDBusMessage\<close> whose
  argument list is not empty and starts with an object path.
\<close>

datatype dbus_arg = QDBusObjectPath string | OtherArgument

datatype reply = QDBusMessage "dbus_arg list" | NotAMessage

fun request_accepted :: "reply \<Rightarrow> bool" where
  "request_accepted (QDBusMessage (QDBusObjectPath p # args)) = True"
| "request_accepted r = False"

text \<open>
  The message of the \<open>Response\<close> signal, of signature \<^verbatim>\<open>ua{sv}\<close>, as the source reads
  it: the response code, first of its two arguments, and the text \<^verbatim>\<open>str(message)\<close>,
  from which the URI is cut out.
\<close>

record message =
  code :: "32 word"
  str :: string

text \<open>
  What one attempt meets outside the program: the name of the bus connection, the eight
  random letters, the reply to the call, and the events the event loop dispatches. The
  loop works in rounds and looks at its exit flag after each: \<open>first_round\<close> are the
  events of the round in which the zero-delay timer has run \<open>grab_full_desktop\<close>, in the
  order they are dispatched after it, \<open>later_rounds\<close> those of the rounds that follow.
  An attempt whose rounds run out before \<open>exit\<close> has been called is one whose
  \<open>loop.exec()\<close> does not return.
\<close>

datatype event = Response message | TimerTimeout

record attempt_env =
  base_service :: string
  random_str :: string
  call_reply :: reply
  first_round :: "event list"
  later_rounds :: "event list list"

text \<open>
  What \<open>grab_full_desktop\<close> does: the path of the request object whose \<open>Response\<close>
  signal it connects to \<open>on_response\<close>, the bus call it makes, and the signals it emits
  before it returns.
\<close>

record grab =
  request_path :: string
  call :: dbus_call
  emitted :: "signal list"

definition grab_full_desktop :: "OrgFreedesktopPortalScreenshot \<Rightarrow> attempt_env \<Rightarrow> grab" where
  "grab_full_desktop self env =
     (let base = map (\<lambda>c. if c = CHR ''.'' then CHR ''_'' else c) (tl (base_service env));
          token = ''normcap_'' @ random_str env;
          object_path = ''/org/freedesktop/portal/desktop/request/'' @ base @ ''/'' @ token;
          screenshot_call =
            \<lparr>call_service = ''org.freedesktop.portal.Desktop'',
             call_path = ''/org/freedesktop/portal/desktop'',
             call_interface = ''org.freedesktop.portal.Screenshot'',
             call_method = ''Screenshot'',
             parent_window = '''',
             options = [(''interactive'', Bool False), (''handle_token'', Str token)]\<rparr>
      in \<lparr>request_path = object_path,
          call = screenshot_call,
          emitted = (if request_accepted (call_reply env) then []
                     else [on_exception ScreenshotRequestError])\<rparr>)"

definition timeout_triggered :: "OrgFreedesktopPortalScreenshot \<Rightarrow> signal list" where
  "timeout_triggered self = [on_exception (TimeoutError (timeout_sec self))]"

text \<open>
  \<^verbatim>\<open>s.split(sep)\<close> for a separator that is not empty, as the two literals of
  \<open>got_signal\<close> are: the occurrences of \<open>sep\<close> are found from the left, without overlap.
\<close>

fun split_from :: "string \<Rightarrow> string \<Rightarrow> string \<Rightarrow> string list" where
  "split_from sep acc [] = [rev acc]"
| "split_from sep acc (c # cs) =
     (if take (length sep) (c # cs) = sep
      then rev acc # split_from sep [] (drop (length sep - 1) cs)
      else split_from sep (c # acc) cs)"

definition str_split :: "string \<Rightarrow> string \<Rightarrow> string list" where
  "str_split s sep = split_from sep [] s"

definition uri_opening :: string where
  "uri_opening = ''[Variant(QString): '' @ [CHR 0x22]"

definition uri_closing :: string where
  "uri_closing = [CHR 0x22] @ '']}''"

text \<open>
  \<open>got_signal\<close> stops the timer, emits \<open>on_exception\<close> when the code is not zero, and in
  either case goes on to cut the URI out of the text and to emit \<open>on_result\<close>. The third
  component is the \<open>IndexError\<close> of \<^verbatim>\<open>split(...)[1]\<close> when the text has no opening
  marker; what was emitted before it stays emitted.
\<close>

definition got_signal ::
  "OrgFreedesktopPortalScreenshot \<Rightarrow> message \<Rightarrow>
     OrgFreedesktopPortalScreenshot \<times> signal list \<times> error option" where
  "got_signal self m =
     (let self' = self\<lparr>timer_active := False\<rparr>;
          failed = (if code m \<noteq> 0
                    then [on_exception (ScreenshotResponseError (code m))] else [])
      in case str_split (str m) uri_opening of
           before # uri # rest \<Rightarrow>
             (case str_split uri uri_closing of
                uri' # rest' \<Rightarrow> (self', failed @ [on_result uri'], None)
              | [] \<Rightarrow> (self', failed, Some IndexError))
         | _ \<Rightarrow> (self', failed, Some IndexError))"


section \<open>dbus\_portal.py: the synchronous wrapper\<close>

text \<open>
  The local state of \<open>_synchronized_capture\<close>: the portal object, the two lists its
  slots append to, and whether \<open>loop.exit()\<close> has been called.
\<close>

record sync_state =
  portal :: OrgFreedesktopPortalScreenshot
  result :: "string list"
  exceptions :: "error list"
  exit_called :: bool

definition signal_triggered :: "string \<Rightarrow> sync_state \<Rightarrow> sync_state" where
  "signal_triggered uri st = st\<lparr>result := result st @ [uri], exit_called := True\<rparr>"

definition exception_triggered :: "error \<Rightarrow> sync_state \<Rightarrow> sync_state" where
  "exception_triggered e st = st\<lparr>exceptions := exceptions st @ [e], exit_called := True\<rparr>"

fun emit :: "signal \<Rightarrow> sync_state \<Rightarrow> sync_state" where
  "emit (on_result uri) st = signal_triggered uri st"
| "emit (on_exception e) st = exception_triggered e st"

text \<open>
  One event of the loop. A response runs \<open>got_signal\<close>; an exception raised inside that
  slot is reported by the binding and does not leave the loop. The timer fires only
  while it is running, and once.
\<close>

fun dispatch :: "event \<Rightarrow> sync_state \<Rightarrow> sync_state" where
  "dispatch (Response m) st =
     (case got_signal (portal st) m of
        (self', signals, raised) \<Rightarrow> fold emit signals (st\<lparr>portal := self'\<rparr>))"
| "dispatch TimerTimeout st =
     (if timer_active (portal st)
      then fold emit (timeout_triggered (portal st))
             (st\<lparr>portal := (portal st)\<lparr>timer_active := False\<rparr>\<rparr>)
      else st)"

fun exec_loop :: "event list list \<Rightarrow> sync_state \<Rightarrow> sync_state option" where
  "exec_loop [] st = None"
| "exec_loop (round # later) st =
     (let st' = fold dispatch round st
      in if exit_called st' then Some st' else exec_loop later st')"

text \<open>
  The wrapper up to the return of \<open>loop.exec()\<close>: the timer is started, the zero-delay
  timer runs \<open>grab_full_desktop\<close> first, then the loop dispatches the events of its first
  round and, until \<open>exit\<close> has been called, those of the later rounds.
\<close>

definition run_request :: "bool \<Rightarrow> attempt_env \<Rightarrow> dbus_call \<times> sync_state option" where
  "run_request interactive_flag env =
     (let self = \<lparr>interactive = interactive_flag, timeout_sec = TIMEOUT_SECONDS,
                   timer_active = True\<rparr>;
          st0 = \<lparr>portal = self, result = [], exceptions = [], exit_called = False\<rparr>;
          g = grab_full_desktop self env
      in (call g,
          exec_loop (first_round env # later_rounds env) (fold emit (emitted g) st0)))"

text \<open>
  The state of the wrapper in the first round of the loop, when the zero-delay timer
  has run \<open>grab_full_desktop\<close> and the slots have taken what it emitted: the state on
  which \<open>run_request\<close> starts to dispatch the events.
\<close>

definition after_grab :: "bool \<Rightarrow> attempt_env \<Rightarrow> sync_state" where
  "after_grab interactive_flag env =
     (let self = \<lparr>interactive = interactive_flag, timeout_sec = TIMEOUT_SECONDS,
                   timer_active = True\<rparr>;
          st0 = \<lparr>portal = self, result = [], exceptions = [], exit_called = False\<rparr>
      in fold emit (emitted (grab_full_desktop self env)) st0)"

text \<open>
  The rest of the wrapper: the first recorded exception is raised; otherwise the first
  recorded URI is loaded as an image and cut into the images of the screens.
  \<open>load_screens\<close> stands for \<^verbatim>\<open>QImage(urlparse(uri).path)\<close> followed by
  \<open>split_full_desktop_to_screens\<close>, which is not among the source files.
\<close>

definition conclude :: "(string \<Rightarrow> 'img list) \<Rightarrow> sync_state \<Rightarrow> error + 'img list" where
  "conclude load_screens st =
     (case exceptions st of
        e # es \<Rightarrow> Inl e
      | [] \<Rightarrow> (case result st of
                 [] \<Rightarrow> Inl IndexError
               | uri # uris \<Rightarrow> Inr (load_screens uri)))"

definition synchronized_capture ::
  "(string \<Rightarrow> 'img list) \<Rightarrow> bool \<Rightarrow> attempt_env \<Rightarrow>
     dbus_call \<times> (error + 'img list) option" where
  "synchronized_capture load_screens interactive_flag env =
     (case run_request interactive_flag env of
        (screenshot_call, final) \<Rightarrow>
          (screenshot_call, map_option (conclude load_screens) final))"


section \<open>dbus\_portal.py: the two attempts of capture\<close>

text \<open>
  What \<open>capture\<close> meets: the value of \<^verbatim>\<open>os.getenv("FLATPAK_ID")\<close>, the successive
  answers of \<open>window.isActiveWindow()\<close>, and the environment of each attempt.
\<close>

record capture_env =
  FLATPAK_ID :: "string option"
  is_active_window :: "bool list"
  silent_attempt :: attempt_env
  interactive_attempt :: attempt_env

text \<open>
  \<^verbatim>\<open>not os.getenv("FLATPAK_ID")\<close> is true when the variable is not set and when it is
  set to the empty string.
\<close>

fun flatpak_marker :: "string option \<Rightarrow> bool" where
  "flatpak_marker None = False"
| "flatpak_marker (Some v) = (v \<noteq> [])"

text \<open>
  The loop \<^verbatim>\<open>while not window.isActiveWindow()\<close> ends at the first answer that is
  true; when no answer is, it does not end.
\<close>

fun window_becomes_active :: "bool list \<Rightarrow> bool" where
  "window_becomes_active [] = False"
| "window_becomes_active (a # answers) = (a \<or> window_becomes_active answers)"

text \<open>
  What \<open>capture\<close> does that can be seen from outside: the calls of
  \<open>_synchronized_capture\<close> with their flag, the bus calls, and the permission window
  shown and hidden.
\<close>

datatype action = Attempt bool | Call dbus_call | WindowShow | WindowHide

text \<open>
  \<open>capture\<close>: the actions, and the image list returned (\<open>Inr\<close>), the exception raised
  (\<open>Inl\<close>), or \<open>None\<close> when it does not return.
\<close>

definition capture ::
  "(string \<Rightarrow> 'img list) \<Rightarrow> capture_env \<Rightarrow> action list \<times> (error + 'img list) option" where
  "capture load_screens w =
     (case synchronized_capture load_screens False (silent_attempt w) of
        (call1, outcome1) \<Rightarrow>
          (let trace1 = [Attempt False, Call call1]
           in case outcome1 of
                None \<Rightarrow> (trace1, None)
              | Some (Inr images) \<Rightarrow> (trace1, Some (Inr images))
              | Some (Inl e) \<Rightarrow>
                  if \<not> is_TimeoutError e then (trace1, Some (Inl e))
                  else if \<not> flatpak_marker (FLATPAK_ID w) then (trace1, Some (Inr []))
                  else if \<not> window_becomes_active (is_active_window w)
                    then (trace1 @ [WindowShow], None)
                  else (case synchronized_capture load_screens True (interactive_attempt w) of
                          (call2, outcome2) \<Rightarrow>
                            (let trace2 = trace1 @ [WindowShow, Attempt True, Call call2]
                             in case outcome2 of
                                  None \<Rightarrow> (trace2, None)
                                | Some (Inr images) \<Rightarrow>
                                    (trace2 @ [WindowHide], Some (Inr images))
                                | Some (Inl e2) \<Rightarrow>
                                    if is_TimeoutError e2 then (trace2, Some (Inr []))
                                    else (trace2, Some (Inl e2))))))"


section \<open>Example messages and environments\<close>

text \<open>
  The inputs of the example runs below: a reply that is accepted, a response with code 0
  and one with code 1, both with a URI in their text, the environment of a first and of
  a second attempt, the bus call made with a given token, a whole environment of
  \<open>capture\<close>, and a loader that returns the URI itself in place of the images.
\<close>

abbreviation accepted_reply :: reply where
  "accepted_reply \<equiv>
     QDBusMessage [QDBusObjectPath ''/org/freedesktop/portal/desktop/request/1_42/normcap_abcdefgh'']"

abbreviation response_text :: "string \<Rightarrow> string \<Rightarrow> string" where
  "response_text c uri \<equiv>
     ''contents=('' @ c @ '', [Argument: a{sv} {uri = '' @ uri_opening @ uri @ uri_closing
       @ '']) )''"

abbreviation success_message :: message where
  "success_message \<equiv> \<lparr>code = 0, str = response_text ''0'' ''file:///tmp/x.png''\<rparr>"

abbreviation failure_message :: message where
  "failure_message \<equiv> \<lparr>code = 1, str = response_text ''1'' ''file:///tmp/x.png''\<rparr>"

abbreviation attempt :: "reply \<Rightarrow> event list \<Rightarrow> event list list \<Rightarrow> attempt_env" where
  "attempt r first later \<equiv>
     \<lparr>base_service = '':1.42'', random_str = ''abcdefgh'', call_reply = r,
      first_round = first, later_rounds = later\<rparr>"



abbreviation world ::
  "string option \<Rightarrow> bool list \<Rightarrow> attempt_env \<Rightarrow> attempt_env \<Rightarrow> capture_env" where
  "world marker answers silent retry \<equiv>
     \<lparr>FLATPAK_ID = marker, is_active_window = answers,
      silent_attempt = silent, interactive_attempt = retry\<rparr>"

abbreviation paths_as_images :: "string \<Rightarrow> string list" where
  "paths_as_images \<equiv> (\<lambda>uri. [uri])"



section \<open>The version comparator on the reference versions\<close>

lemma is_new_version_patch: "is_new_version ''0.3.0'' ''0.3.1'' = Inr True"
  by code_simp

lemma is_new_version_equal: "is_new_version ''0.3.0'' ''0.3.0'' = Inr False"
  by code_simp

lemma is_new_version_release: "is_new_version ''0.3.0-beta.1'' ''0.3.0'' = Inr True"
  by code_simp

text \<open>
  When the number follows the word without a full stop, it is part of the fourth
  component and the numbers are compared as numbers.
\<close>

lemma is_new_version_undotted: "is_new_version ''0.3.0-alpha2'' ''0.3.0-alpha10'' = Inr True"
  by code_simp

text \<open>
  C4. Of the four reference comparisons, three come out as stated (the lemmas above);
  the fourth does not. The split at the full stop puts the number of \<open>alpha.2\<close> and of
  \<open>alpha.10\<close> into a fifth component, which the comparator never reads, and the
  zero-padded fourth component \<open>000alpha\<close> has the digits \<open>000\<close> on both sides: the
  comparator answers that \<open>0.3.0-alpha.10\<close> is not newer than \<open>0.3.0-alpha.2\<close>.
\<close>

theorem is_new_version_alpha_numbers:
  "is_new_version ''0.3.0-alpha.2'' ''0.3.0-alpha.10'' = Inr False"
  by code_simp

text \<open>
  C5. With equal major.minor.patch and a suffix on both sides, the comparator compares
  the first characters of the zero-padded fourth components. Both \<open>000alpha\<close> and
  \<open>0000beta\<close> start with \<open>0\<close>, so the letters \<open>a\<close> and \<open>b\<close> are never compared, and the
  digits of both components read as zero: a beta version is not found newer than the
  alpha version of the same number.
\<close>

theorem is_new_version_alpha_beta:
  "is_new_version ''0.3.0-alpha.1'' ''0.3.0-beta.1'' = Inr False"
  by code_simp


section \<open>The version comparator is irreflexive\<close>

lemma re_split_plain:
  "list_all (\<lambda>c. c \<noteq> CHR ''.'' \<and> c \<noteq> CHR ''-'') a \<Longrightarrow> re_split a = [a]"
  by (induction a) auto

lemma re_split_append:
  "list_all (\<lambda>c. c \<noteq> CHR ''.'' \<and> c \<noteq> CHR ''-'') a \<Longrightarrow>
   sep = CHR ''.'' \<or> sep = CHR ''-'' \<Longrightarrow>
   re_split (a @ sep # rest) = a # re_split rest"
  by (induction a) auto

lemma digits_plain:
  "list_all is_digit a \<Longrightarrow> list_all (\<lambda>c. c \<noteq> CHR ''.'' \<and> c \<noteq> CHR ''-'') a"
  by (induction a) (auto simp: is_digit_def)

lemma re_split_release:
  assumes "list_all is_digit major" "list_all is_digit minor" "list_all is_digit patch"
  shows "re_split (major @ ''.'' @ minor @ ''.'' @ patch) = [major, minor, patch]"
  using assms by (simp add: re_split_append re_split_plain digits_plain)

lemma re_split_prerelease:
  assumes "list_all is_digit major" "list_all is_digit minor" "list_all is_digit patch"
    "list_all is_digit n" "list_all (\<lambda>c. c \<noteq> CHR ''.'' \<and> c \<noteq> CHR ''-'') word"
  shows "re_split (major @ ''.'' @ minor @ ''.'' @ patch @ ''-'' @ word @ ''.'' @ n)
     = [major, minor, patch, word, n]"
  using assms by (simp add: re_split_append re_split_plain digits_plain)

lemma tuple_less_irrefl: "\<not> tuple_less xs xs"
  by (induction xs) auto

lemma same_release:
  assumes "re_split v = [a, b, c]"
  shows "is_new_version v v = Inr False"
  using assms by (simp add: is_new_version_def Let_def tuple_less_irrefl)

lemma same_prerelease:
  assumes "re_split v = [a, b, c, w, n]" "zfill 8 w = d # ds"
    "filter is_digit (d # ds) \<noteq> []"
  shows "is_new_version v v = Inr False"
  using assms by (simp add: is_new_version_def Let_def tuple_less_irrefl py_int_def)

lemma zfill_alpha: "zfill 8 ''alpha'' = ''000alpha''"
  by code_simp

lemma zfill_beta: "zfill 8 ''beta'' = ''0000beta''"
  by code_simp

text \<open>
  C10. For all strings of digits \<open>major\<close>, \<open>minor\<close>, \<open>patch\<close> and \<open>n\<close>, the version
  \<open>major.minor.patch\<close>, alone or followed by \<open>-alpha.n\<close> or by \<open>-beta.n\<close>, is not newer
  than itself: the comparator returns false, and raises nothing.
\<close>

theorem is_new_version_irreflexive:
  assumes "list_all is_digit major" "list_all is_digit minor" "list_all is_digit patch"
    "list_all is_digit n"
  shows "is_new_version (major @ ''.'' @ minor @ ''.'' @ patch)
           (major @ ''.'' @ minor @ ''.'' @ patch) = Inr False
       \<and> is_new_version (major @ ''.'' @ minor @ ''.'' @ patch @ ''-alpha.'' @ n)
           (major @ ''.'' @ minor @ ''.'' @ patch @ ''-alpha.'' @ n) = Inr False
       \<and> is_new_version (major @ ''.'' @ minor @ ''.'' @ patch @ ''-beta.'' @ n)
           (major @ ''.'' @ minor @ ''.'' @ patch @ ''-beta.'' @ n) = Inr False"
proof (intro conjI)
  show "is_new_version (major @ ''.'' @ minor @ ''.'' @ patch)
           (major @ ''.'' @ minor @ ''.'' @ patch) = Inr False"
    using re_split_release[OF assms(1-3)] by (rule same_release)
next
  have "re_split (major @ ''.'' @ minor @ ''.'' @ patch @ ''-alpha.'' @ n)
      = [major, minor, patch, ''alpha'', n]"
    using re_split_prerelease[OF assms, of "''alpha''"] by simp
  then show "is_new_version (major @ ''.'' @ minor @ ''.'' @ patch @ ''-alpha.'' @ n)
           (major @ ''.'' @ minor @ ''.'' @ patch @ ''-alpha.'' @ n) = Inr False"
    by (rule same_prerelease[OF _ zfill_alpha]) (simp add: is_digit_def)
next
  have "re_split (major @ ''.'' @ minor @ ''.'' @ patch @ ''-beta.'' @ n)
      = [major, minor, patch, ''beta'', n]"
    using re_split_prerelease[OF assms, of "''beta''"] by simp
  then show "is_new_version (major @ ''.'' @ minor @ ''.'' @ patch @ ''-beta.'' @ n)
           (major @ ''.'' @ minor @ ''.'' @ patch @ ''-beta.'' @ n) = Inr False"
    by (rule same_prerelease[OF _ zfill_beta]) (simp add: is_digit_def)
qed

theorem is_new_version_irreflexive_witness:
  "is_new_version ''0.3.0'' ''0.3.0'' = Inr False
   \<and> is_new_version ''0.3.0-alpha.12'' ''0.3.0-alpha.12'' = Inr False
   \<and> is_new_version ''0.3.0-beta.12'' ''0.3.0-beta.12'' = Inr False"
proof -
  have "list_all is_digit ''0''" "list_all is_digit ''3''" "list_all is_digit ''12''"
    by (simp_all add: is_digit_def)
  from is_new_version_irreflexive[OF this(1) this(2) this(1) this(3)]
  show ?thesis by simp
qed


section \<open>The bus call and the response handler\<close>

text \<open>
  C1. The options of the \<open>Screenshot\<close> call do not carry the flag the object was created
  with: a portal object created with \<open>interactive = True\<close>, as the second attempt of
  \<open>capture\<close> creates it, makes the call with \<open>interactive\<close> set to false, whatever the
  rest of its state and its environment.
\<close>

theorem grab_full_desktop_interactive_option:
  "map_of (options (call (grab_full_desktop
       \<lparr>interactive = True, timeout_sec = t, timer_active = a\<rparr> env))) ''interactive''
     = Some (Bool False)"
  by (simp add: grab_full_desktop_def Let_def)

text \<open>
  C2. A response whose code is not zero makes \<open>got_signal\<close> emit \<open>on_exception\<close> and then,
  since it goes on to cut out the URI, \<open>on_result\<close> as well: two outcomes for one
  request.
\<close>

theorem got_signal_error_and_result:
  "fst (snd (got_signal \<lparr>interactive = False, timeout_sec = 10, timer_active = True\<rparr>
       failure_message))
     = [on_exception (ScreenshotResponseError 1), on_result ''file:///tmp/x.png'']"
  by code_simp

text \<open>
  \<open>got_signal\<close> stops the timer whatever the message is, so that a timer event after a
  response emits nothing.
\<close>

lemma got_signal_stops_timer: "\<not> timer_active (fst (got_signal self m))"
  by (simp add: got_signal_def Let_def split: list.splits)


section \<open>The event loop\<close>

text \<open>
  The slots only append to the list of exceptions, and \<open>exit\<close>, once called, stays
  called: the first exception recorded stays the first.
\<close>

lemma emit_exceptions: "\<exists>es. exceptions (emit s st) = exceptions st @ es"
  by (cases s) (simp_all add: signal_triggered_def exception_triggered_def)

lemma emit_exit: "exit_called (emit s st)"
  by (cases s) (simp_all add: signal_triggered_def exception_triggered_def)

lemma fold_emit_exceptions: "\<exists>es. exceptions (fold emit signals st) = exceptions st @ es"
proof (induction signals arbitrary: st)
  case Nil
  show ?case by simp
next
  case (Cons s signals)
  obtain es1 where 1: "exceptions (emit s st) = exceptions st @ es1"
    using emit_exceptions by blast
  obtain es2 where 2:
    "exceptions (fold emit signals (emit s st)) = exceptions (emit s st) @ es2"
    using Cons.IH by blast
  show ?case using 1 2 by simp
qed

lemma fold_emit_exit: "exit_called st \<Longrightarrow> exit_called (fold emit signals st)"
  by (induction signals arbitrary: st) (simp_all add: emit_exit)

lemma emit_portal: "portal (emit s st) = portal st"
  by (cases s) (simp_all add: signal_triggered_def exception_triggered_def)

lemma fold_emit_portal: "portal (fold emit signals st) = portal st"
  by (induction signals arbitrary: st) (simp_all add: emit_portal)

lemma no_timeout_after_response:
  "dispatch TimerTimeout (dispatch (Response m) st) = dispatch (Response m) st"
proof -
  obtain self' signals raised where g: "got_signal (portal st) m = (self', signals, raised)"
    by (cases "got_signal (portal st) m") auto
  have "\<not> timer_active self'"
    using got_signal_stops_timer[of "portal st" m] g by simp
  then show ?thesis
    using g by (simp add: fold_emit_portal)
qed

lemma dispatch_exceptions: "\<exists>es. exceptions (dispatch ev st) = exceptions st @ es"
proof (cases ev)
  case (Response m)
  obtain self' signals raised where g: "got_signal (portal st) m = (self', signals, raised)"
    by (cases "got_signal (portal st) m") auto
  obtain es where
    "exceptions (fold emit signals (st\<lparr>portal := self'\<rparr>)) = exceptions (st\<lparr>portal := self'\<rparr>) @ es"
    using fold_emit_exceptions by blast
  then show ?thesis using Response g by simp
next
  case TimerTimeout
  obtain es where
    "exceptions (fold emit (timeout_triggered (portal st))
        (st\<lparr>portal := (portal st)\<lparr>timer_active := False\<rparr>\<rparr>))
      = exceptions (st\<lparr>portal := (portal st)\<lparr>timer_active := False\<rparr>\<rparr>) @ es"
    using fold_emit_exceptions by blast
  then show ?thesis using TimerTimeout by simp
qed

lemma dispatch_exit: "exit_called st \<Longrightarrow> exit_called (dispatch ev st)"
  by (cases ev) (auto simp: fold_emit_exit split: prod.splits)

lemma fold_dispatch_exceptions:
  "\<exists>es. exceptions (fold dispatch round st) = exceptions st @ es"
proof (induction round arbitrary: st)
  case Nil
  show ?case by simp
next
  case (Cons ev round)
  obtain es1 where 1: "exceptions (dispatch ev st) = exceptions st @ es1"
    using dispatch_exceptions by blast
  obtain es2 where 2:
    "exceptions (fold dispatch round (dispatch ev st)) = exceptions (dispatch ev st) @ es2"
    using Cons.IH by blast
  show ?case using 1 2 by simp
qed

lemma fold_dispatch_exit: "exit_called st \<Longrightarrow> exit_called (fold dispatch round st)"
  by (induction round arbitrary: st) (simp_all add: dispatch_exit)

lemma exec_loop_exited:
  assumes "exit_called st" "exceptions st = e # es"
  shows "\<exists>st' es'. exec_loop (round # later) st = Some st' \<and> exceptions st' = e # es'"
proof -
  obtain es2 where "exceptions (fold dispatch round st) = exceptions st @ es2"
    using fold_dispatch_exceptions by blast
  then show ?thesis using assms by (simp add: fold_dispatch_exit)
qed

lemma exec_loop_idle_rounds:
  "\<not> exit_called st \<Longrightarrow> exec_loop (replicate k [] @ rounds) st = exec_loop rounds st"
  by (induction k) simp_all

lemma exec_loop_timeout_first:
  assumes "\<not> exit_called st" "exceptions st = []" "timer_active (portal st)"
  shows "\<exists>st' es'. exec_loop (replicate k [] @ (TimerTimeout # round) # later) st = Some st'
           \<and> exceptions st' = TimeoutError (timeout_sec (portal st)) # es'"
proof -
  let ?st1 = "dispatch TimerTimeout st"
  have 1: "exit_called ?st1" "exceptions ?st1 = [TimeoutError (timeout_sec (portal st))]"
    using assms by (simp_all add: exception_triggered_def timeout_triggered_def)
  obtain es2 where 2: "exceptions (fold dispatch round ?st1) = exceptions ?st1 @ es2"
    using fold_dispatch_exceptions by blast
  have 3: "exit_called (fold dispatch round ?st1)"
    using 1 by (simp only: fold_dispatch_exit)
  have 4: "fold dispatch (TimerTimeout # round) st = fold dispatch round ?st1"
    by simp
  have "exec_loop ((TimerTimeout # round) # later) st = Some (fold dispatch round ?st1)"
    using 3 by (simp only: exec_loop.simps Let_def 4 if_True)
  then show ?thesis
    using 1 2 assms(1) by (simp add: exec_loop_idle_rounds)
qed

text \<open>
  A slot that records an exception calls \<open>exit\<close> as well; and while the loop has not
  returned, its rounds are dispatched one after the other.
\<close>

lemma fold_emit_recorded:
  "(exceptions st \<noteq> [] \<longrightarrow> exit_called st) \<Longrightarrow>
   exceptions (fold emit signals st) \<noteq> [] \<longrightarrow> exit_called (fold emit signals st)"
  by (cases signals) (simp_all add: fold_emit_exit emit_exit)

lemma dispatch_recorded:
  assumes "exceptions st \<noteq> [] \<longrightarrow> exit_called st"
  shows "exceptions (dispatch ev st) \<noteq> [] \<longrightarrow> exit_called (dispatch ev st)"
proof (cases ev)
  case (Response m)
  obtain self' signals raised where g: "got_signal (portal st) m = (self', signals, raised)"
    by (cases "got_signal (portal st) m") auto
  have "exceptions (st\<lparr>portal := self'\<rparr>) \<noteq> [] \<longrightarrow> exit_called (st\<lparr>portal := self'\<rparr>)"
    using assms by simp
  from fold_emit_recorded[OF this, of signals] show ?thesis
    using Response g by simp
next
  case TimerTimeout
  have "exceptions (st\<lparr>portal := (portal st)\<lparr>timer_active := False\<rparr>\<rparr>) \<noteq> []
      \<longrightarrow> exit_called (st\<lparr>portal := (portal st)\<lparr>timer_active := False\<rparr>\<rparr>)"
    using assms by simp
  from fold_emit_recorded[OF this, of "timeout_triggered (portal st)"] show ?thesis
    using TimerTimeout assms by simp
qed

lemma fold_dispatch_recorded:
  "(exceptions st \<noteq> [] \<longrightarrow> exit_called st) \<Longrightarrow>
   exceptions (fold dispatch round st) \<noteq> [] \<longrightarrow> exit_called (fold dispatch round st)"
proof (induction round arbitrary: st)
  case Nil
  then show ?case by simp
next
  case (Cons ev round)
  from Cons.IH[OF dispatch_recorded[OF Cons.prems, of ev]] show ?case by simp
qed

lemma exec_loop_still_running:
  "exec_loop before st = None \<Longrightarrow>
   exec_loop (before @ rounds) st = exec_loop rounds (fold dispatch (concat before) st)"
proof (induction before arbitrary: st)
  case Nil
  show ?case by simp
next
  case (Cons b before)
  from Cons.prems have 1: "\<not> exit_called (fold dispatch b st)"
    and 2: "exec_loop before (fold dispatch b st) = None"
    by (auto simp: Let_def split: if_splits)
  from Cons.IH[OF 2] 1 show ?case by (simp add: Let_def)
qed


section \<open>The synchronous wrapper\<close>

lemma run_request_snd:
  "snd (run_request flag env) =
     exec_loop (first_round env # later_rounds env)
       (fold emit
          (emitted (grab_full_desktop
             \<lparr>interactive = flag, timeout_sec = TIMEOUT_SECONDS, timer_active = True\<rparr> env))
          \<lparr>portal = \<lparr>interactive = flag, timeout_sec = TIMEOUT_SECONDS, timer_active = True\<rparr>,
           result = [], exceptions = [], exit_called = False\<rparr>)"
  by (simp add: run_request_def Let_def)

lemma synchronized_capture_snd:
  "snd (synchronized_capture load_screens flag env) =
     map_option (conclude load_screens) (snd (run_request flag env))"
  by (simp add: synchronized_capture_def split_beta)

lemma conclude_exception: "exceptions st = e # es \<Longrightarrow> conclude load_screens st = Inl e"
  by (simp add: conclude_def)

lemma run_request_after_grab:
  "snd (run_request flag env) =
     exec_loop (first_round env # later_rounds env) (after_grab flag env)"
  by (simp add: run_request_def after_grab_def Let_def)

lemma after_grab_recorded:
  "exceptions (after_grab flag env) \<noteq> [] \<longrightarrow> exit_called (after_grab flag env)"
  unfolding after_grab_def Let_def
  by (rule fold_emit_recorded) simp

lemma rejected_raises:
  assumes "\<not> request_accepted (call_reply env)"
  shows "snd (synchronized_capture load_screens flag env) = Some (Inl ScreenshotRequestError)"
proof -
  let ?self = "\<lparr>interactive = flag, timeout_sec = TIMEOUT_SECONDS, timer_active = True\<rparr>"
  let ?st0 = "\<lparr>portal = ?self, result = [], exceptions = [], exit_called = False\<rparr>"
  let ?st1 = "fold emit [on_exception ScreenshotRequestError] ?st0"
  have g: "emitted (grab_full_desktop ?self env) = [on_exception ScreenshotRequestError]"
    using assms by (simp add: grab_full_desktop_def Let_def)
  have "exit_called ?st1" "exceptions ?st1 = [ScreenshotRequestError]"
    by (simp_all add: exception_triggered_def)
  then obtain st' es' where
    "exec_loop (first_round env # later_rounds env) ?st1 = Some st'"
    "exceptions st' = ScreenshotRequestError # es'"
    using exec_loop_exited by blast
  then show ?thesis
    by (simp only: synchronized_capture_snd run_request_snd g option.map conclude_exception)
qed

lemma timeout_first_raises:
  assumes "request_accepted (call_reply env)"
    "first_round env # later_rounds env = replicate k [] @ (TimerTimeout # round) # later"
  shows "snd (synchronized_capture load_screens flag env)
           = Some (Inl (TimeoutError TIMEOUT_SECONDS))"
proof -
  let ?self = "\<lparr>interactive = flag, timeout_sec = TIMEOUT_SECONDS, timer_active = True\<rparr>"
  let ?st0 = "\<lparr>portal = ?self, result = [], exceptions = [], exit_called = False\<rparr>"
  have g: "emitted (grab_full_desktop ?self env) = []"
    using assms(1) by (simp add: grab_full_desktop_def Let_def)
  have "\<not> exit_called ?st0" "exceptions ?st0 = []" "timer_active (portal ?st0)"
    by simp_all
  from exec_loop_timeout_first[OF this, of k round later]
  obtain st' es' where
    "exec_loop (replicate k [] @ (TimerTimeout # round) # later) ?st0 = Some st'"
    "exceptions st' = TimeoutError TIMEOUT_SECONDS # es'"
    by auto
  then show ?thesis
    by (simp add: synchronized_capture_snd run_request_snd g assms(2) conclude_exception)
qed

text \<open>
  C8. When the reply to the \<open>Screenshot\<close> call is not a message that starts with an
  object path, \<open>grab_full_desktop\<close> itself emits the request error, and the wrapper
  raises it whatever responses and timer events the loop still dispatches.
\<close>

theorem rejected_request_fails_at_once:
  assumes "\<not> request_accepted (call_reply env)"
  shows "emitted (grab_full_desktop self env) = [on_exception ScreenshotRequestError]
       \<and> snd (synchronized_capture load_screens flag env) = Some (Inl ScreenshotRequestError)"
  using assms rejected_raises[OF assms]
  by (simp add: grab_full_desktop_def Let_def)

theorem rejected_request_fails_at_once_witness:
  "emitted (grab_full_desktop \<lparr>interactive = False, timeout_sec = 10, timer_active = True\<rparr>
       (attempt (QDBusMessage []) [Response success_message] [[TimerTimeout]]))
     = [on_exception ScreenshotRequestError]
   \<and> snd (synchronized_capture paths_as_images False
       (attempt (QDBusMessage []) [Response success_message] [[TimerTimeout]]))
     = Some (Inl ScreenshotRequestError)"
proof -
  have "\<not> request_accepted
      (call_reply (attempt (QDBusMessage []) [Response success_message] [[TimerTimeout]]))"
    by simp
  from rejected_request_fails_at_once[OF this, where load_screens = paths_as_images]
  show ?thesis by blast
qed

text \<open>
  C9. Take any round of the loop that is reached, the loop not having returned in the
  rounds before it, and at whose end an exception is recorded. Then the loop returns at
  the end of that round, and the wrapper raises the first of the recorded exceptions: it
  returns no image list, also when a URI has been recorded. Every exception of a request
  is recorded in such a round, the one of a rejected request in the first.
\<close>

theorem exceptions_before_results:
  assumes "first_round env # later_rounds env = before @ round # later"
    and "exec_loop before (after_grab flag env) = None"
    and "exceptions (fold dispatch round (fold dispatch (concat before) (after_grab flag env)))
           \<noteq> []"
  shows "snd (synchronized_capture load_screens flag env)
           = Some (Inl (hd (exceptions
               (fold dispatch round (fold dispatch (concat before) (after_grab flag env))))))
       \<and> (\<forall>images. snd (synchronized_capture load_screens flag env) \<noteq> Some (Inr images))
       \<and> snd (run_request flag env)
           = Some (fold dispatch round (fold dispatch (concat before) (after_grab flag env)))"
proof -
  let ?reached = "fold dispatch (concat before) (after_grab flag env)"
  let ?final = "fold dispatch round ?reached"
  have "exceptions ?reached \<noteq> [] \<longrightarrow> exit_called ?reached"
    by (rule fold_dispatch_recorded) (rule after_grab_recorded)
  then have "exceptions ?final \<noteq> [] \<longrightarrow> exit_called ?final"
    by (rule fold_dispatch_recorded)
  then have exit: "exit_called ?final"
    using assms(3) by simp
  have "snd (run_request flag env) = exec_loop (round # later) ?reached"
    by (simp only: run_request_after_grab assms(1) exec_loop_still_running[OF assms(2)])
  also have "\<dots> = Some ?final"
    using exit by (simp add: Let_def)
  finally have run: "snd (run_request flag env) = Some ?final" .
  obtain e es where "exceptions ?final = e # es"
    using assms(3) by (cases "exceptions ?final") auto
  then show ?thesis
    by (simp add: synchronized_capture_snd run conclude_def)
qed

theorem exceptions_before_results_witness:
  "result (fold dispatch [Response failure_message]
       (fold dispatch (concat [[]])
          (after_grab False (attempt accepted_reply [] [[Response failure_message]]))))
     = [''file:///tmp/x.png'']
   \<and> snd (synchronized_capture paths_as_images False
           (attempt accepted_reply [] [[Response failure_message]]))
     = Some (Inl (ScreenshotResponseError 1))"
proof -
  let ?env = "attempt accepted_reply [] [[Response failure_message]]"
  let ?final = "fold dispatch [Response failure_message]
       (fold dispatch (concat [[]]) (after_grab False ?env))"
  have rounds: "first_round ?env # later_rounds ?env = [[]] @ [Response failure_message] # []"
    by simp
  have running: "exec_loop [[]] (after_grab False ?env) = None"
    by code_simp
  have final: "?final = \<lparr>portal = \<lparr>interactive = False, timeout_sec = 10, timer_active = False\<rparr>,
             result = [''file:///tmp/x.png''],
             exceptions = [ScreenshotResponseError 1],
             exit_called = True\<rparr>"
    by code_simp
  have recorded: "exceptions ?final \<noteq> []"
    by (simp only: final) simp
  from exceptions_before_results[OF rounds running recorded, where load_screens = paths_as_images]
  have "snd (synchronized_capture paths_as_images False ?env)
      = Some (Inl (hd (exceptions ?final)))"
    by (rule conjunct1)
  then have "snd (synchronized_capture paths_as_images False ?env)
      = Some (Inl (ScreenshotResponseError 1))"
    by (simp only: final) simp
  moreover have "result ?final = [''file:///tmp/x.png'']"
    by (simp only: final) simp
  ultimately show ?thesis by (rule conjI[rotated])
qed

text \<open>
  C6, as stated, fails: \<open>got_signal\<close> looks at no state before it acts. After the timer
  has fired and the timeout has been recorded, a response to the same request still
  makes it emit \<open>on_result\<close>, and the slot, still connected, records the URI.
\<close>

theorem late_response_is_emitted:
  "exceptions (dispatch TimerTimeout
       \<lparr>portal = \<lparr>interactive = False, timeout_sec = 10, timer_active = True\<rparr>,
        result = [], exceptions = [], exit_called = False\<rparr>)
     = [TimeoutError 10]
   \<and> fst (snd (got_signal
       (portal (dispatch TimerTimeout
          \<lparr>portal = \<lparr>interactive = False, timeout_sec = 10, timer_active = True\<rparr>,
           result = [], exceptions = [], exit_called = False\<rparr>))
       success_message))
     = [on_result ''file:///tmp/x.png'']
   \<and> result (dispatch (Response success_message) (dispatch TimerTimeout
       \<lparr>portal = \<lparr>interactive = False, timeout_sec = 10, timer_active = True\<rparr>,
        result = [], exceptions = [], exit_called = False\<rparr>))
     = [''file:///tmp/x.png'']"
  by code_simp

text \<open>
  C6, amended. What makes a late response harmless is the wrapper: when the request was
  accepted and the timer fires before any response, the wrapper raises the
  \<open>TimeoutError\<close>, whatever is dispatched after the timer event, in the same round of the
  loop or later. It returns no images for this request.
\<close>

theorem timeout_outcome_is_final:
  assumes "request_accepted (call_reply env)"
    "first_round env # later_rounds env = replicate k [] @ (TimerTimeout # round) # later"
  shows "snd (synchronized_capture load_screens flag env)
           = Some (Inl (TimeoutError TIMEOUT_SECONDS))"
  using assms by (rule timeout_first_raises)

theorem timeout_outcome_is_final_witness:
  "snd (synchronized_capture paths_as_images False
       (attempt accepted_reply [] [[TimerTimeout, Response success_message],
                                   [Response success_message]]))
     = Some (Inl (TimeoutError 10))"
proof -
  have a: "request_accepted (call_reply
      (attempt accepted_reply [] [[TimerTimeout, Response success_message],
                                  [Response success_message]]))"
    by simp
  have r: "first_round (attempt accepted_reply [] [[TimerTimeout, Response success_message],
                                                   [Response success_message]])
         # later_rounds (attempt accepted_reply [] [[TimerTimeout, Response success_message],
                                                    [Response success_message]])
       = replicate 1 [] @ (TimerTimeout # [Response success_message])
           # [[Response success_message]]"
    by simp
  from timeout_outcome_is_final[OF a r, where load_screens = paths_as_images]
  show ?thesis by (simp only: TIMEOUT_SECONDS_def)
qed


section \<open>The two attempts of capture\<close>


lemma capture_silent_error:
  assumes "snd (synchronized_capture L False (silent_attempt w)) = Some (Inl e)"
    "\<not> is_TimeoutError e"
  shows "snd (capture L w) = Some (Inl e)"
  using assms by (simp add: capture_def split_beta Let_def)

lemma capture_silent_timeout_plain:
  assumes "snd (synchronized_capture L False (silent_attempt w)) = Some (Inl e)"
    "is_TimeoutError e" "\<not> flatpak_marker (FLATPAK_ID w)"
  shows "capture L w =
    ([Attempt False, Call (fst (synchronized_capture L False (silent_attempt w)))],
     Some (Inr []))"
  using assms by (simp add: capture_def split_beta Let_def)

lemma capture_retry_error:
  assumes "snd (synchronized_capture L False (silent_attempt w)) = Some (Inl e)"
    "is_TimeoutError e" "flatpak_marker (FLATPAK_ID w)"
    "window_becomes_active (is_active_window w)"
    "snd (synchronized_capture L True (interactive_attempt w)) = Some (Inl e2)"
  shows "snd (capture L w) = Some (if is_TimeoutError e2 then Inr [] else Inl e2)"
  using assms by (simp add: capture_def split_beta Let_def)




text \<open>
  C3, as stated, fails: \<open>capture\<close> catches \<open>TimeoutError\<close> and nothing else. A rejected
  request and a response with a code that is not zero both leave \<open>capture\<close> as an
  exception.
\<close>

theorem capture_raises_request_and_response_errors:
  "snd (capture paths_as_images
       (world None [] (attempt (QDBusMessage []) [] []) (attempt (QDBusMessage []) [] [])))
     = Some (Inl ScreenshotRequestError)
   \<and> snd (capture paths_as_images
       (world None [] (attempt accepted_reply [] [[Response failure_message]])
          (attempt accepted_reply [] [])))
     = Some (Inl (ScreenshotResponseError 1))"
  by code_simp

text \<open>
  C3, amended. \<open>capture\<close> never raises a \<open>TimeoutError\<close>: a timeout of the silent
  attempt without the marker, and a timeout of the interactive attempt, give the empty
  list. Any other exception of an attempt, the request error and the response error
  among them, is raised to the caller of \<open>capture\<close>.
\<close>

theorem capture_failure_outcomes:
  "(\<forall>s. snd (capture L w) \<noteq> Some (Inl (TimeoutError s)))
   \<and> (\<forall>e1. snd (synchronized_capture L False (silent_attempt w)) = Some (Inl e1) \<longrightarrow>
        (\<not> is_TimeoutError e1 \<longrightarrow> snd (capture L w) = Some (Inl e1))
      \<and> (is_TimeoutError e1 \<and> \<not> flatpak_marker (FLATPAK_ID w) \<longrightarrow>
           snd (capture L w) = Some (Inr []))
      \<and> (is_TimeoutError e1 \<and> flatpak_marker (FLATPAK_ID w)
           \<and> window_becomes_active (is_active_window w) \<longrightarrow>
           (\<forall>e2. snd (synchronized_capture L True (interactive_attempt w)) = Some (Inl e2) \<longrightarrow>
              snd (capture L w) = Some (if is_TimeoutError e2 then Inr [] else Inl e2))))"
proof -
  obtain call1 outcome1 where
    s1: "synchronized_capture L False (silent_attempt w) = (call1, outcome1)"
    by (cases "synchronized_capture L False (silent_attempt w)") auto
  obtain call2 outcome2 where
    s2: "synchronized_capture L True (interactive_attempt w) = (call2, outcome2)"
    by (cases "synchronized_capture L True (interactive_attempt w)") auto
  have "\<forall>s. snd (capture L w) \<noteq> Some (Inl (TimeoutError s))"
    unfolding capture_def s1 s2
    by (auto simp: Let_def split: option.splits sum.splits)
  then show ?thesis
    by (auto simp: capture_silent_error capture_silent_timeout_plain capture_retry_error)
qed

theorem capture_failure_outcomes_witness:
  "snd (capture paths_as_images
       (world None [] (attempt (QDBusMessage []) [] []) (attempt accepted_reply [] [])))
     = Some (Inl ScreenshotRequestError)
   \<and> snd (capture paths_as_images
       (world None [] (attempt accepted_reply [] [[TimerTimeout]]) (attempt accepted_reply [] [])))
     = Some (Inr [])
   \<and> snd (capture paths_as_images
       (world (Some ''com.github.dynobo.normcap'') [True]
          (attempt accepted_reply [] [[TimerTimeout]])
          (attempt accepted_reply [] [[TimerTimeout]])))
     = Some (Inr [])
   \<and> snd (capture paths_as_images
       (world (Some ''com.github.dynobo.normcap'') [True]
          (attempt accepted_reply [] [[TimerTimeout]])
          (attempt accepted_reply [] [[Response failure_message]])))
     = Some (Inl (ScreenshotResponseError 1))"
proof -
  let ?timeout = "attempt accepted_reply [] [[TimerTimeout]]"
  let ?failure = "attempt accepted_reply [] [[Response failure_message]]"
  let ?rejected = "world None [] (attempt (QDBusMessage []) [] []) (attempt accepted_reply [] [])"
  let ?plain = "world None [] ?timeout (attempt accepted_reply [] [])"
  let ?twice = "world (Some ''com.github.dynobo.normcap'') [True] ?timeout ?timeout"
  let ?refused = "world (Some ''com.github.dynobo.normcap'') [True] ?timeout ?failure"
  have r: "snd (synchronized_capture paths_as_images False (silent_attempt ?rejected))
      = Some (Inl ScreenshotRequestError)"
    by code_simp
  have t: "snd (synchronized_capture paths_as_images b ?timeout) = Some (Inl (TimeoutError 10))"
    for b
    by (cases b; code_simp)
  have f: "snd (synchronized_capture paths_as_images True ?failure)
      = Some (Inl (ScreenshotResponseError 1))"
    by code_simp
  have 1: "snd (capture paths_as_images ?rejected) = Some (Inl ScreenshotRequestError)"
    using capture_failure_outcomes[of paths_as_images ?rejected] r by simp
  have 2: "snd (capture paths_as_images ?plain) = Some (Inr [])"
    using capture_failure_outcomes[of paths_as_images ?plain] t[of False] by simp
  have 3: "snd (capture paths_as_images ?twice) = Some (Inr [])"
    using capture_failure_outcomes[of paths_as_images ?twice] t[of False] t[of True] by simp
  have 4: "snd (capture paths_as_images ?refused) = Some (Inl (ScreenshotResponseError 1))"
    using capture_failure_outcomes[of paths_as_images ?refused] t[of False] f by simp
  show ?thesis
    using 1 2 3 4 by blast
qed

end
